theory Spec2Isabelle
  imports Complex_Main "HOL-Library.Multiset" "HOL-Library.Sublist"
begin

section \<open>Data model of dca_stake.py\<close>

text \<open>
  Amounts (TAO, prices, ratios) are Python floats in the source. A float is modelled as
  the real number it denotes, so comparisons are those of the reals; NaN and the
  infinities are outside the model. The arithmetic of the source is not assumed to be
  exact: its product, sum and quotient are the three operations of a record
  \<open>float_ops\<close> that every function computing with amounts takes as its first argument.
  Nothing is assumed of these operations. \<open>exact_ops\<close> is the arithmetic of the reals;
  the sample inputs evaluated with it are such that rounding changes none of the
  comparisons made on them.
  \<open>underflow_ops\<close> differs from it in one effect of rounding: a product whose magnitude
  is at most \<open>2\<close> to the power \<open>-1075\<close>, half the smallest positive double, is zero.
\<close>

record float_ops =
  fmul :: "real \<Rightarrow> real \<Rightarrow> real"
  fadd :: "real \<Rightarrow> real \<Rightarrow> real"
  fdiv :: "real \<Rightarrow> real \<Rightarrow> real"

definition exact_ops :: float_ops where
  "exact_ops = \<lparr>fmul = (\<lambda>x y. x * y), fadd = (\<lambda>x y. x + y), fdiv = (\<lambda>x y. x / y)\<rparr>"

definition underflow_ops :: float_ops where
  "underflow_ops =
     \<lparr>fmul = (\<lambda>x y. if \<bar>x * y\<bar> \<le> 1 / 2 ^ 1075 then 0 else x * y),
      fadd = (\<lambda>x y. x + y), fdiv = (\<lambda>x y. x / y)\<rparr>"

text \<open>
  A field of a subnet object that the source reads through \<open>float(...)\<close> inside a
  \<open>try\<close> is an optional real: \<open>None\<close> stands for a read that raises an exception the
  enclosing handler catches. For the price and the emission that is any exception; for
  the liquidity \<open>tao_in\<close> it is \<open>AttributeError\<close> or \<open>TypeError\<close>, an attribute that is
  absent or holds no number. A liquidity on which \<open>float\<close> raises something else, such as
  a string that is no numeral, is outside the model: the subnet objects of the client
  library hold a balance there.
\<close>

record subnet =
  netuid :: int
  subnet_name :: string
  price :: "real option"
  tao_in :: "real option"
  tao_in_emission :: "real option"

record config =
  wallet_name :: string
  validator_hotkey :: string
  stake_amount :: real
  target_netuid :: "int option"
  whitelist :: "int list"
  min_liquidity_ratio :: real
  network :: string
  log_file :: string
  dry_run :: bool

section \<open>Subnet helpers\<close>

text \<open>\<open>get_subnet_by_netuid\<close>: the first subnet of the list with the given id.\<close>

fun get_subnet_by_netuid :: "subnet list \<Rightarrow> int \<Rightarrow> subnet option" where
  "get_subnet_by_netuid [] n = None"
| "get_subnet_by_netuid (s # subnets) n =
     (if netuid s = n then Some s else get_subnet_by_netuid subnets n)"

text \<open>
  One iteration of the loop of \<open>select_best_from_whitelist\<close>; the state is the pair
  \<open>(best_subnet, best_score)\<close>. Every \<open>continue\<close> of the source leaves the state as it is.
\<close>

definition select_step ::
  "float_ops \<Rightarrow> int list \<Rightarrow> real \<Rightarrow> real \<Rightarrow> subnet option \<times> real \<Rightarrow> subnet
     \<Rightarrow> subnet option \<times> real" where
  "select_step fp wl stake ratio st s =
     (if netuid s \<notin> set wl then st
      else (case price s of
        None \<Rightarrow> st
      | Some p \<Rightarrow>
          (if p \<le> 0 then st
           else (case tao_in s of
             None \<Rightarrow> st
           | Some tao_in_pool \<Rightarrow>
               (if tao_in_pool < fmul fp stake ratio then st
                else (let score = (case tao_in_emission s of None \<Rightarrow> 0 | Some e \<Rightarrow> fdiv fp e p)
                      in (if score > snd st then (Some s, score) else st)))))))"

fun select_loop ::
  "float_ops \<Rightarrow> int list \<Rightarrow> real \<Rightarrow> real \<Rightarrow> subnet option \<times> real \<Rightarrow> subnet list
     \<Rightarrow> subnet option \<times> real" where
  "select_loop fp wl stake ratio st [] = st"
| "select_loop fp wl stake ratio st (s # subnets) =
     select_loop fp wl stake ratio (select_step fp wl stake ratio st s) subnets"

definition select_best_from_whitelist ::
  "float_ops \<Rightarrow> subnet list \<Rightarrow> int list \<Rightarrow> real \<Rightarrow> real
     \<Rightarrow> subnet option \<times> string option" where
  "select_best_from_whitelist fp subnets wl stake ratio =
     (case fst (select_loop fp wl stake ratio (None, 0) subnets) of
        Some best_subnet \<Rightarrow> (Some best_subnet, None)
      | None \<Rightarrow> (None, Some ''No eligible subnets in whitelist''))"

section \<open>Validation\<close>

text \<open>
  The third component of the result of \<open>check_liquidity\<close> is a message; the two values
  that the source formats into the last message are kept as arguments.
\<close>

datatype liquidity_msg =
    Unable_to_determine_pool_liquidity
  | Pool_has_zero_liquidity
  | Pool_below_required real real
  | OK

definition check_liquidity ::
  "float_ops \<Rightarrow> subnet \<Rightarrow> real \<Rightarrow> real \<Rightarrow> bool \<times> real \<times> liquidity_msg" where
  "check_liquidity fp s stake min_ratio =
     (case tao_in s of
        None \<Rightarrow> (False, 0, Unable_to_determine_pool_liquidity)
      | Some tao_in_pool \<Rightarrow>
          (if tao_in_pool \<le> 0 then (False, tao_in_pool, Pool_has_zero_liquidity)
           else (let required = fmul fp stake min_ratio
                 in (if tao_in_pool < required
                     then (False, tao_in_pool, Pool_below_required tao_in_pool required)
                     else (True, tao_in_pool, OK)))))"

section \<open>Eligibility and score, as the specification words them\<close>

text \<open>
  A candidate survives the filters of whitelist mode when its id is in the whitelist, its
  price is readable and positive, its liquidity is readable, and its liquidity is not below
  \<open>stakeAmount * minLiquidityRatio\<close>, the product being the one the machine computes.
\<close>

definition survives :: "float_ops \<Rightarrow> int list \<Rightarrow> real \<Rightarrow> real \<Rightarrow> subnet \<Rightarrow> bool" where
  "survives fp wl stake ratio s =
     (netuid s \<in> set wl
      \<and> (case price s of None \<Rightarrow> False | Some p \<Rightarrow> 0 < p)
      \<and> (case tao_in s of None \<Rightarrow> False | Some t \<Rightarrow> \<not> t < fmul fp stake ratio))"

text \<open>The score is emission divided by price, and 0 when the emission cannot be read.\<close>

definition score_of :: "float_ops \<Rightarrow> subnet \<Rightarrow> real" where
  "score_of fp s =
     (case price s of
        None \<Rightarrow> 0
      | Some p \<Rightarrow> (case tao_in_emission s of None \<Rightarrow> 0 | Some e \<Rightarrow> fdiv fp e p))"

text \<open>Sample subnets used to run the definitions.\<close>

definition mk_subnet :: "int \<Rightarrow> real option \<Rightarrow> real option \<Rightarrow> real option \<Rightarrow> subnet" where
  "mk_subnet n p t e =
     \<lparr>netuid = n, subnet_name = ''sn'', price = p, tao_in = t, tao_in_emission = e\<rparr>"

section \<open>Exceptions and the outside world\<close>

text \<open>
  Exceptions are values. \<open>RetryError\<close> is what the retry decorator raises once its
  attempts are used up; it wraps the exception of the last attempt. \<open>ConnectionError\<close>
  is raised by \<open>connect_to_bittensor\<close> with \<open>last_error\<close> in its message.
\<close>

datatype exn = Exn string | RetryError exn | ConnectionError "exn option"

text \<open>
  One call of the body of \<open>connect_with_retry\<close>: the constructor of the client may raise,
  the liveness call \<open>get_current_block\<close> may raise, or both succeed.
\<close>

datatype attempt_result = Constructor_raises exn | Liveness_raises exn | Alive

fun attempt_error :: "attempt_result \<Rightarrow> exn option" where
  "attempt_error (Constructor_raises e) = Some e"
| "attempt_error (Liveness_raises e) = Some e"
| "attempt_error Alive = None"

datatype subtensor = Subtensor string

datatype wallet = Wallet string

text \<open>
  The answers of the collaborators during one run: the result of the k-th try on a
  network, the wallet unlock, the balance query, the subnet listing and the stake call.
\<close>

record env =
  connect_attempt :: "string \<Rightarrow> nat \<Rightarrow> attempt_result"
  wallet_unlock :: "string \<Rightarrow> exn + wallet"
  get_balance :: "exn + real"
  all_subnets :: "exn + subnet list"
  add_stake :: "string \<Rightarrow> int \<Rightarrow> real \<Rightarrow> exn + bool"

text \<open>
  What a run does that can be observed: its log lines (one constructor for each logging
  call of the source, with the values it formats) and its calls to the collaborators.
\<close>

datatype event =
    Try_connect string nat
  | Log_Connecting string
  | Log_Connected string
  | Log_Failed_to_connect string exn
  | Log_Connection_failed exn
  | Log_Wallet_unlocked string
  | Log_Wallet_unlock_failed exn
  | Log_Insufficient_balance real real
  | Log_Wallet_balance real
  | Log_Failed_to_check_balance exn
  | Log_Target_subnet int
  | Log_Subnet_not_found int
  | Log_Selecting_best "int list"
  | Log_No_eligible_subnets "string option"
  | Log_No_target_or_whitelist
  | Log_Subnet_price int string real
  | Log_Invalid_price_data
  | Log_Liquidity_check liquidity_msg
  | Log_Skipping_stake
  | Log_Dry_run real int
  | Log_Executing_stake real int
  | Log_Success real int string
  | Log_Stake_returned_failure
  | Log_Stake_failed exn
  | Call_add_stake string int real
  | Call_close
  | Print_config_error exn
  | Log_Starting
  | Log_Dry_run_mode
  | Log_Finished int

text \<open>Events that happen before the events of the rest of a computation.\<close>

definition emit :: "event list \<Rightarrow> event list \<times> 'a \<Rightarrow> event list \<times> 'a" where
  "emit evs r = (evs @ fst r, snd r)"

section \<open>Connection\<close>

definition FALLBACK_NETWORKS :: "string list" where
  "FALLBACK_NETWORKS = [''finney'', ''subvortex'', ''archive'']"

text \<open>
  \<open>connect_with_retry\<close> under \<open>stop_after_attempt(3)\<close>: the body runs as try number
  \<open>k\<close>; when it raises and \<open>k\<close> has reached 3 the decorator raises \<open>RetryError\<close>, otherwise
  it waits and runs try \<open>k + 1\<close>. The waiting times are not modelled.
\<close>

function connect_with_retry_from ::
  "env \<Rightarrow> string \<Rightarrow> nat \<Rightarrow> event list \<times> (exn + subtensor)" where
  "connect_with_retry_from world nw k =
     (case attempt_error (connect_attempt world nw k) of
        None \<Rightarrow> ([Try_connect nw k], Inr (Subtensor nw))
      | Some e \<Rightarrow>
          (if 3 \<le> k then ([Try_connect nw k], Inl (RetryError e))
           else emit [Try_connect nw k] (connect_with_retry_from world nw (k + 1))))"
  by pat_completeness auto
termination
  by (relation "measure (\<lambda>(world, nw, k). 3 - k)") auto

declare connect_with_retry_from.simps [simp del]

definition connect_with_retry :: "env \<Rightarrow> string \<Rightarrow> event list \<times> (exn + subtensor)" where
  "connect_with_retry world nw = connect_with_retry_from world nw 1"

definition networks_to_try :: "string \<Rightarrow> string list" where
  "networks_to_try primary_network =
     [primary_network] @ filter (\<lambda>n. n \<noteq> primary_network) FALLBACK_NETWORKS"

text \<open>The loop of \<open>connect_to_bittensor\<close>; the state is \<open>last_error\<close>.\<close>

fun connect_loop ::
  "env \<Rightarrow> string list \<Rightarrow> exn option \<Rightarrow> event list \<times> (exn + subtensor)" where
  "connect_loop world [] last_error = ([], Inl (ConnectionError last_error))"
| "connect_loop world (nw # rest) last_error =
     (case connect_with_retry world nw of
        (evs, Inr sub) \<Rightarrow> (Log_Connecting nw # evs @ [Log_Connected nw], Inr sub)
      | (evs, Inl e) \<Rightarrow>
          emit (Log_Connecting nw # evs @ [Log_Failed_to_connect nw e])
            (connect_loop world rest (Some e)))"

definition connect_to_bittensor :: "env \<Rightarrow> string \<Rightarrow> event list \<times> (exn + subtensor)" where
  "connect_to_bittensor world primary_network =
     connect_loop world (networks_to_try primary_network) None"

section \<open>Wallet and staking\<close>

definition unlock_wallet :: "env \<Rightarrow> string \<Rightarrow> event list \<times> (exn + wallet)" where
  "unlock_wallet world name =
     (case wallet_unlock world name of
        Inl e \<Rightarrow> ([], Inl e)
      | Inr w \<Rightarrow> ([Log_Wallet_unlocked name], Inr w))"

definition execute_stake ::
  "env \<Rightarrow> string \<Rightarrow> int \<Rightarrow> real \<Rightarrow> event list \<times> (exn + bool)" where
  "execute_stake world hotkey n amount =
     ([Log_Executing_stake amount n, Call_add_stake hotkey n amount],
      add_stake world hotkey n amount)"

section \<open>The run\<close>

text \<open>
  \<open>run\<close> returns an exit code or lets an exception escape (\<open>Inl\<close>). Its body is cut in
  three at the comments of the source: from "Log subnet info" to the end of the \<open>try\<close>
  block (\<open>stake_on\<close>), from "Get target subnet" (\<open>resolve_target\<close>), and the whole block
  (\<open>run_body\<close>). The \<open>finally\<close> clause closes the connection after the block, whatever
  the block did.
\<close>

definition stake_on ::
  "float_ops \<Rightarrow> config \<Rightarrow> env \<Rightarrow> subnet \<Rightarrow> event list \<times> (exn + int)" where
  "stake_on fp cfg world s =
     (case price s of
        None \<Rightarrow> ([Log_Invalid_price_data], Inr 1)
      | Some p \<Rightarrow>
          emit [Log_Subnet_price (netuid s) (subnet_name s) p]
            (case check_liquidity fp s (stake_amount cfg) (min_liquidity_ratio cfg) of
               (liquidity_ok, tao_in_pool, liquidity_msg) \<Rightarrow>
                 emit [Log_Liquidity_check liquidity_msg]
                   (if \<not> liquidity_ok then ([Log_Skipping_stake], Inr 0)
                    else if dry_run cfg
                    then ([Log_Dry_run (stake_amount cfg) (netuid s)], Inr 0)
                    else (case execute_stake world (validator_hotkey cfg) (netuid s)
                                 (stake_amount cfg) of
                            (evs, Inl e) \<Rightarrow> (evs @ [Log_Stake_failed e], Inr 1)
                          | (evs, Inr success) \<Rightarrow>
                              (if success
                               then (evs @ [Log_Success (stake_amount cfg) (netuid s)
                                              (subnet_name s)], Inr 0)
                               else (evs @ [Log_Stake_returned_failure], Inr 1))))))"

definition resolve_target :: "float_ops \<Rightarrow> config \<Rightarrow> env \<Rightarrow> event list \<times> (exn + int)" where
  "resolve_target fp cfg world =
     (case target_netuid cfg of
        Some n \<Rightarrow>
          emit [Log_Target_subnet n]
            (case all_subnets world of
               Inl e \<Rightarrow> ([], Inl e)
             | Inr subnets \<Rightarrow>
                 (case get_subnet_by_netuid subnets n of
                    None \<Rightarrow> ([Log_Subnet_not_found n], Inr 1)
                  | Some s \<Rightarrow> stake_on fp cfg world s))
      | None \<Rightarrow>
          (if whitelist cfg \<noteq> []
           then emit [Log_Selecting_best (whitelist cfg)]
             (case all_subnets world of
                Inl e \<Rightarrow> ([], Inl e)
              | Inr subnets \<Rightarrow>
                  (case select_best_from_whitelist fp subnets (whitelist cfg)
                          (stake_amount cfg) (min_liquidity_ratio cfg) of
                     (None, error) \<Rightarrow> ([Log_No_eligible_subnets error], Inr 0)
                   | (Some s, error) \<Rightarrow> stake_on fp cfg world s))
           else ([Log_No_target_or_whitelist], Inr 1)))"

definition run_body :: "float_ops \<Rightarrow> config \<Rightarrow> env \<Rightarrow> event list \<times> (exn + int)" where
  "run_body fp cfg world =
     (case unlock_wallet world (wallet_name cfg) of
        (evs, Inl e) \<Rightarrow> (evs @ [Log_Wallet_unlock_failed e], Inr 1)
      | (evs, Inr w) \<Rightarrow>
          emit evs
            (case get_balance world of
               Inl e \<Rightarrow> ([Log_Failed_to_check_balance e], Inr 1)
             | Inr balance \<Rightarrow>
                 (if balance < fadd fp (stake_amount cfg) 0.01
                  then ([Log_Insufficient_balance balance (fadd fp (stake_amount cfg) 0.01)],
                        Inr 1)
                  else emit [Log_Wallet_balance balance] (resolve_target fp cfg world))))"

definition run :: "float_ops \<Rightarrow> config \<Rightarrow> env \<Rightarrow> event list \<times> (exn + int)" where
  "run fp cfg world =
     (case connect_to_bittensor world (network cfg) of
        (evs, Inl (ConnectionError last_error)) \<Rightarrow>
          (evs @ [Log_Connection_failed (ConnectionError last_error)], Inr 1)
      | (evs, Inl e) \<Rightarrow> (evs, Inl e)
      | (evs, Inr sub) \<Rightarrow>
          (case run_body fp cfg world of
             (evs', r) \<Rightarrow> (evs @ evs' @ [Call_close], r)))"

text \<open>
  \<open>main\<close> gets the result of \<open>load_config\<close> and the \<open>--dry-run\<close> flag of the command
  line. The status of the process is the value \<open>main\<close> returns, handed to \<open>sys.exit\<close>; an
  exception that escapes \<open>main\<close> ends the interpreter with status 1.
\<close>

definition main ::
  "float_ops \<Rightarrow> exn + config \<Rightarrow> bool \<Rightarrow> env \<Rightarrow> event list \<times> (exn + int)" where
  "main fp loaded cli_dry_run world =
     (case loaded of
        Inl e \<Rightarrow> ([Print_config_error e], Inr 1)
      | Inr cfg0 \<Rightarrow>
          (let cfg = (if cli_dry_run then cfg0\<lparr>dry_run := True\<rparr> else cfg0)
           in emit (Log_Starting # (if dry_run cfg then [Log_Dry_run_mode] else []))
                (case run fp cfg world of
                   (evs, Inr exit_code) \<Rightarrow> (evs @ [Log_Finished exit_code], Inr exit_code)
                 | (evs, Inl e) \<Rightarrow> (evs, Inl e))))"

definition exit_status :: "exn + int \<Rightarrow> int" where
  "exit_status r = (case r of Inr exit_code \<Rightarrow> exit_code | Inl e \<Rightarrow> 1)"

section \<open>Reading a trace\<close>

text \<open>
  The tries of a trace, as pairs of network and try number, and the networks it started
  to connect to. \<open>all_tries\<close> is three tries on each network of a list, in order;
  \<open>all_fail\<close> says that each of these tries raises.
\<close>

fun tries :: "event list \<Rightarrow> (string \<times> nat) list" where
  "tries [] = []"
| "tries (Try_connect nw k # evs) = (nw, k) # tries evs"
| "tries (ev # evs) = tries evs"

fun attempted_networks :: "event list \<Rightarrow> string list" where
  "attempted_networks [] = []"
| "attempted_networks (Log_Connecting nw # evs) = nw # attempted_networks evs"
| "attempted_networks (ev # evs) = attempted_networks evs"

definition all_tries :: "string list \<Rightarrow> (string \<times> nat) list" where
  "all_tries nets = concat (map (\<lambda>nw. [(nw, 1), (nw, 2), (nw, 3)]) nets)"

definition all_fail :: "env \<Rightarrow> string list \<Rightarrow> bool" where
  "all_fail world nets =
     (\<forall>nw\<in>set nets. \<forall>k\<in>{1, 2, 3}. attempt_error (connect_attempt world nw k) \<noteq> None)"

definition dead_world :: env where
  "dead_world =
     \<lparr>connect_attempt = (\<lambda>nw k. Liveness_raises (Exn ''no block'')),
      wallet_unlock = (\<lambda>name. Inr (Wallet name)),
      get_balance = Inr 100,
      all_subnets = Inr [],
      add_stake = (\<lambda>hotkey n amount. Inr True)\<rparr>"

section \<open>Sample inputs and the stages of a run\<close>

text \<open>
  A world in which every collaborator answers, with three subnets, and a configuration
  with stake 1 and ratio 10 whose target id, whitelist and dry-run flag are arguments.
\<close>

definition sample_world :: env where
  "sample_world =
     \<lparr>connect_attempt = (\<lambda>nw k. Alive),
      wallet_unlock = (\<lambda>name. Inr (Wallet name)),
      get_balance = Inr 100,
      all_subnets = Inr [mk_subnet 5 (Some (2 / 100)) (Some 100) (Some 1),
                         mk_subnet 3 (Some 1) (Some 5) (Some 9),
                         mk_subnet 7 (Some 1) (Some 50) (Some 1)],
      add_stake = (\<lambda>hotkey n amount. Inr True)\<rparr>"

definition sample_config :: "int option \<Rightarrow> int list \<Rightarrow> bool \<Rightarrow> config" where
  "sample_config target wl dry =
     \<lparr>wallet_name = ''default'', validator_hotkey = ''5F'', stake_amount = 1,
      target_netuid = target, whitelist = wl, min_liquidity_ratio = 10,
      network = ''finney'', log_file = ''logs/dca.log'', dry_run = dry\<rparr>"

text \<open>
  A world whose only subnet has the price 0, and a world whose only subnet has an empty
  pool, with a configuration whose stake and ratio are both \<open>2\<close> to the power \<open>-600\<close>.
  Both numbers are doubles; their product is below the smallest positive double.
\<close>

definition zero_price_world :: env where
  "zero_price_world =
     sample_world\<lparr>all_subnets := Inr [mk_subnet 5 (Some 0) (Some 100) (Some 1)]\<rparr>"

definition empty_pool_world :: env where
  "empty_pool_world =
     sample_world\<lparr>all_subnets := Inr [mk_subnet 7 (Some 1) (Some 0) (Some 1)]\<rparr>"

definition tiny_config :: config where
  "tiny_config =
     (sample_config None [7] False)
       \<lparr>stake_amount := 1 / 2 ^ 600, min_liquidity_ratio := 1 / 2 ^ 600\<rparr>"

fun is_connect_event :: "event \<Rightarrow> bool" where
  "is_connect_event (Try_connect nw k) = True"
| "is_connect_event (Log_Connecting nw) = True"
| "is_connect_event (Log_Connected nw) = True"
| "is_connect_event (Log_Failed_to_connect nw e) = True"
| "is_connect_event ev = False"

text \<open>
  The run gets as far as resolving its target: it is connected, the wallet is unlocked and
  the balance is readable and not below the stake plus the fee buffer of 0.01.
\<close>

definition reaches_resolution :: "float_ops \<Rightarrow> config \<Rightarrow> env \<Rightarrow> bool" where
  "reaches_resolution fp cfg world =
     (\<not> all_fail world (networks_to_try (network cfg))
      \<and> (case wallet_unlock world (wallet_name cfg) of Inl e \<Rightarrow> False | Inr w \<Rightarrow> True)
      \<and> (case get_balance world of
            Inl e \<Rightarrow> False
          | Inr balance \<Rightarrow> \<not> balance < fadd fp (stake_amount cfg) 0.01))"

text \<open>
  The candidate that resolution settles on: in explicit-id mode the subnet with the target
  id, in whitelist mode the subnet that the selection returns.
\<close>

definition chosen :: "float_ops \<Rightarrow> config \<Rightarrow> env \<Rightarrow> subnet option" where
  "chosen fp cfg world =
     (case all_subnets world of
        Inl e \<Rightarrow> None
      | Inr subnets \<Rightarrow>
          (case target_netuid cfg of
             Some n \<Rightarrow> get_subnet_by_netuid subnets n
           | None \<Rightarrow>
               (if whitelist cfg \<noteq> []
                then fst (select_best_from_whitelist fp subnets (whitelist cfg)
                            (stake_amount cfg) (min_liquidity_ratio cfg))
                else None)))"

section \<open>The selection loop\<close>

lemma exact_ops_simps:
  "fmul exact_ops x y = x * y" "fadd exact_ops x y = x + y" "fdiv exact_ops x y = x / y"
  by (simp_all add: exact_ops_def)

declare exact_ops_simps [simp]

lemma select_step_eq:
  "select_step fp wl stake ratio st s =
     (if survives fp wl stake ratio s \<and> snd st < score_of fp s then (Some s, score_of fp s) else st)"
  by (simp add: select_step_def survives_def score_of_def Let_def split: option.splits)

lemma select_loop_char:
  "(select_loop fp wl stake ratio st xs = st
      \<and> (\<forall>d\<in>set xs. survives fp wl stake ratio d \<longrightarrow> score_of fp d \<le> snd st))
   \<or> (\<exists>pre c post. xs = pre @ c # post
        \<and> select_loop fp wl stake ratio st xs = (Some c, score_of fp c)
        \<and> survives fp wl stake ratio c \<and> snd st < score_of fp c
        \<and> (\<forall>d\<in>set pre. survives fp wl stake ratio d \<longrightarrow> score_of fp d < score_of fp c)
        \<and> (\<forall>d\<in>set post. survives fp wl stake ratio d \<longrightarrow> score_of fp d \<le> score_of fp c))"
  (is "?keep st xs \<or> ?pick st xs")
proof (induction xs arbitrary: st)
  case Nil
  show ?case by simp
next
  case (Cons x xs)
  let ?st1 = "select_step fp wl stake ratio st x"
  have step: "select_loop fp wl stake ratio st (x # xs) = select_loop fp wl stake ratio ?st1 xs"
    by simp
  show ?case
  proof (cases "survives fp wl stake ratio x \<and> snd st < score_of fp x")
    case True
    then have st1: "?st1 = (Some x, score_of fp x)"
      by (simp add: select_step_eq)
    from Cons.IH [of ?st1] have "?pick st (x # xs)"
    proof
      assume "?keep ?st1 xs"
      then have "x # xs = [] @ x # xs
        \<and> select_loop fp wl stake ratio st (x # xs) = (Some x, score_of fp x)
        \<and> survives fp wl stake ratio x \<and> snd st < score_of fp x
        \<and> (\<forall>d\<in>set []. survives fp wl stake ratio d \<longrightarrow> score_of fp d < score_of fp x)
        \<and> (\<forall>d\<in>set xs. survives fp wl stake ratio d \<longrightarrow> score_of fp d \<le> score_of fp x)"
        using True st1 by simp
      then show ?thesis by (intro exI)
    next
      assume "?pick ?st1 xs"
      then obtain pre c post where xs: "xs = pre @ c # post"
        and res: "select_loop fp wl stake ratio ?st1 xs = (Some c, score_of fp c)"
        and sc: "survives fp wl stake ratio c" and gt: "snd ?st1 < score_of fp c"
        and pre: "\<forall>d\<in>set pre. survives fp wl stake ratio d \<longrightarrow> score_of fp d < score_of fp c"
        and post: "\<forall>d\<in>set post. survives fp wl stake ratio d \<longrightarrow> score_of fp d \<le> score_of fp c"
        by blast
      from gt st1 have xc: "score_of fp x < score_of fp c" by simp
      with True have "snd st < score_of fp c" by simp
      with xs res sc pre post xc
      have "x # xs = (x # pre) @ c # post
        \<and> select_loop fp wl stake ratio st (x # xs) = (Some c, score_of fp c)
        \<and> survives fp wl stake ratio c \<and> snd st < score_of fp c
        \<and> (\<forall>d\<in>set (x # pre). survives fp wl stake ratio d \<longrightarrow> score_of fp d < score_of fp c)
        \<and> (\<forall>d\<in>set post. survives fp wl stake ratio d \<longrightarrow> score_of fp d \<le> score_of fp c)"
        by simp
      then show ?thesis by (intro exI)
    qed
    then show ?thesis ..
  next
    case False
    then have st1: "?st1 = st"
      by (auto simp add: select_step_eq)
    from False have xle: "survives fp wl stake ratio x \<longrightarrow> score_of fp x \<le> snd st"
      by auto
    from Cons.IH [of st] show ?thesis
    proof
      assume "?keep st xs"
      with st1 xle have "?keep st (x # xs)" by simp
      then show ?thesis ..
    next
      assume "?pick st xs"
      then obtain pre c post where xs: "xs = pre @ c # post"
        and res: "select_loop fp wl stake ratio st xs = (Some c, score_of fp c)"
        and sc: "survives fp wl stake ratio c" and gt: "snd st < score_of fp c"
        and pre: "\<forall>d\<in>set pre. survives fp wl stake ratio d \<longrightarrow> score_of fp d < score_of fp c"
        and post: "\<forall>d\<in>set post. survives fp wl stake ratio d \<longrightarrow> score_of fp d \<le> score_of fp c"
        by blast
      from xle gt have "survives fp wl stake ratio x \<longrightarrow> score_of fp x < score_of fp c" by auto
      with xs res sc gt pre post st1
      have "x # xs = (x # pre) @ c # post
        \<and> select_loop fp wl stake ratio st (x # xs) = (Some c, score_of fp c)
        \<and> survives fp wl stake ratio c \<and> snd st < score_of fp c
        \<and> (\<forall>d\<in>set (x # pre). survives fp wl stake ratio d \<longrightarrow> score_of fp d < score_of fp c)
        \<and> (\<forall>d\<in>set post. survives fp wl stake ratio d \<longrightarrow> score_of fp d \<le> score_of fp c)"
        by simp
      then have "?pick st (x # xs)" by (intro exI)
      then show ?thesis ..
    qed
  qed
qed

lemma select_loop_None:
  "fst (select_loop fp wl stake ratio (None, 0) xs) = None
     \<longleftrightarrow> (\<forall>d\<in>set xs. survives fp wl stake ratio d \<longrightarrow> score_of fp d \<le> 0)"
proof
  assume n: "fst (select_loop fp wl stake ratio (None, 0) xs) = None"
  from select_loop_char [of fp wl stake ratio "(None, 0)" xs] n
  show "\<forall>d\<in>set xs. survives fp wl stake ratio d \<longrightarrow> score_of fp d \<le> 0"
    by (elim disjE exE conjE) simp_all
next
  assume le: "\<forall>d\<in>set xs. survives fp wl stake ratio d \<longrightarrow> score_of fp d \<le> 0"
  from select_loop_char [of fp wl stake ratio "(None, 0)" xs]
  show "fst (select_loop fp wl stake ratio (None, 0) xs) = None"
  proof (elim disjE exE conjE)
    fix pre c post
    assume "xs = pre @ c # post" "survives fp wl stake ratio c" "snd (None :: subnet option, 0 :: real) < score_of fp c"
    with le show ?thesis by fastforce
  qed simp
qed

lemma select_loop_Some:
  assumes "fst (select_loop fp wl stake ratio (None, 0) xs) = Some c"
  shows "\<exists>pre post. xs = pre @ c # post
        \<and> survives fp wl stake ratio c \<and> 0 < score_of fp c
        \<and> (\<forall>d\<in>set pre. survives fp wl stake ratio d \<longrightarrow> score_of fp d < score_of fp c)
        \<and> (\<forall>d\<in>set post. survives fp wl stake ratio d \<longrightarrow> score_of fp d \<le> score_of fp c)"
proof -
  from select_loop_char [of fp wl stake ratio "(None, 0)" xs] assms
  obtain pre c' post where xs: "xs = pre @ c' # post"
    and res: "select_loop fp wl stake ratio (None, 0) xs = (Some c', score_of fp c')"
    and rest: "survives fp wl stake ratio c'" "0 < score_of fp c'"
      "\<forall>d\<in>set pre. survives fp wl stake ratio d \<longrightarrow> score_of fp d < score_of fp c'"
      "\<forall>d\<in>set post. survives fp wl stake ratio d \<longrightarrow> score_of fp d \<le> score_of fp c'"
    by (elim disjE exE conjE) simp_all
  from res assms have "c' = c" by simp
  with xs rest show ?thesis by blast
qed

lemma select_best_Some:
  "select_best_from_whitelist fp xs wl stake ratio = (Some c, e)
     \<longleftrightarrow> fst (select_loop fp wl stake ratio (None, 0) xs) = Some c \<and> e = None"
  by (auto simp: select_best_from_whitelist_def split: option.splits)

lemma select_best_None:
  "fst (select_best_from_whitelist fp xs wl stake ratio) = None
     \<longleftrightarrow> fst (select_loop fp wl stake ratio (None, 0) xs) = None"
  by (auto simp: select_best_from_whitelist_def split: option.splits)

lemma select_loop_Some_max:
  assumes "fst (select_loop fp wl stake ratio (None, 0) xs) = Some c"
  shows "c \<in> set xs" "survives fp wl stake ratio c" "0 < score_of fp c"
    "\<forall>d\<in>set xs. survives fp wl stake ratio d \<longrightarrow> score_of fp d \<le> score_of fp c"
proof -
  from select_loop_Some [OF assms]
  obtain pre post where xs: "xs = pre @ c # post"
    and c: "survives fp wl stake ratio c" "0 < score_of fp c"
    and pre: "\<forall>d\<in>set pre. survives fp wl stake ratio d \<longrightarrow> score_of fp d < score_of fp c"
    and post: "\<forall>d\<in>set post. survives fp wl stake ratio d \<longrightarrow> score_of fp d \<le> score_of fp c"
    by blast
  from xs show "c \<in> set xs" by simp
  from c show "survives fp wl stake ratio c" "0 < score_of fp c" by simp_all
  show "\<forall>d\<in>set xs. survives fp wl stake ratio d \<longrightarrow> score_of fp d \<le> score_of fp c"
  proof (intro ballI impI)
    fix d assume d: "d \<in> set xs" "survives fp wl stake ratio d"
    from d xs have "d \<in> set pre \<or> d = c \<or> d \<in> set post" by auto
    then show "score_of fp d \<le> score_of fp c"
      using pre post d by (auto intro: less_imp_le)
  qed
qed

section \<open>Whitelist selection\<close>

text \<open>
  Claim C1, at inputs where the code departs from it. A whitelisted subnet with price 1,
  liquidity 100 and emission 0 passes the four filters for a stake of 1 at ratio 10, and so
  does the same subnet with an unreadable emission. In both cases the score is 0, which is
  not strictly above the initial \<open>best_score\<close> of 0, so \<open>select_best_from_whitelist\<close> keeps
  \<open>best_subnet = None\<close> and answers that no subnet is eligible although a candidate
  survived the filters.
\<close>

theorem select_best_drops_zero_score:
  "survives exact_ops [9] 1 10 (mk_subnet 9 (Some 1) (Some 100) (Some 0))
   \<and> select_best_from_whitelist exact_ops [mk_subnet 9 (Some 1) (Some 100) (Some 0)] [9] 1 10
       = (None, Some ''No eligible subnets in whitelist'')
   \<and> survives exact_ops [9] 1 10 (mk_subnet 9 (Some 1) (Some 100) None)
   \<and> select_best_from_whitelist exact_ops [mk_subnet 9 (Some 1) (Some 100) None] [9] 1 10
       = (None, Some ''No eligible subnets in whitelist'')"
  by (simp add: survives_def mk_subnet_def select_best_from_whitelist_def select_step_def)

text \<open>What the selection returns is a listed subnet that passed the filters.\<close>

lemma select_best_sound:
  assumes "select_best_from_whitelist fp xs wl stake ratio = (Some c, e)"
  shows "c \<in> set xs \<and> survives fp wl stake ratio c \<and> 0 < score_of fp c"
proof -
  from assms have "fst (select_loop fp wl stake ratio (None, 0) xs) = Some c"
    by (simp add: select_best_Some)
  from select_loop_Some_max [OF this] show ?thesis by simp
qed




text \<open>
  The position of the chosen candidate. If a candidate is returned, every surviving
  candidate before it has a strictly smaller score and every surviving candidate after it
  has a score that is smaller or equal. Conversely a surviving candidate with a positive
  score at such a position is the one returned: among candidates that tie at a positive
  maximum the first wins.
\<close>

lemma select_best_Some_position:
  assumes "select_best_from_whitelist fp xs wl stake ratio = (Some c, e)"
  shows "\<exists>pre post. xs = pre @ c # post
        \<and> survives fp wl stake ratio c
        \<and> (\<forall>d\<in>set pre. survives fp wl stake ratio d \<longrightarrow> score_of fp d < score_of fp c)
        \<and> (\<forall>d\<in>set post. survives fp wl stake ratio d \<longrightarrow> score_of fp d \<le> score_of fp c)"
proof -
  from assms have "fst (select_loop fp wl stake ratio (None, 0) xs) = Some c"
    by (simp add: select_best_Some)
  from select_loop_Some [OF this] show ?thesis by blast
qed

lemma select_best_first_max:
  assumes xs: "xs = pre @ c # post"
    and c: "survives fp wl stake ratio c" "0 < score_of fp c"
    and pre: "\<forall>d\<in>set pre. survives fp wl stake ratio d \<longrightarrow> score_of fp d < score_of fp c"
    and post: "\<forall>d\<in>set post. survives fp wl stake ratio d \<longrightarrow> score_of fp d \<le> score_of fp c"
  shows "select_best_from_whitelist fp xs wl stake ratio = (Some c, None)"
proof -
  let ?r = "fst (select_loop fp wl stake ratio (None, 0) xs)"
  have "?r \<noteq> None"
  proof
    assume "?r = None"
    then have "\<forall>d\<in>set xs. survives fp wl stake ratio d \<longrightarrow> score_of fp d \<le> 0"
      by (simp add: select_loop_None)
    moreover have "c \<in> set xs" using xs by simp
    ultimately show False using c by fastforce
  qed
  then obtain c' where r: "?r = Some c'" by auto
  from select_loop_Some [OF r]
  obtain pre' post' where xs': "xs = pre' @ c' # post'"
    and c': "survives fp wl stake ratio c'"
    and pre': "\<forall>d\<in>set pre'. survives fp wl stake ratio d \<longrightarrow> score_of fp d < score_of fp c'"
    and post': "\<forall>d\<in>set post'. survives fp wl stake ratio d \<longrightarrow> score_of fp d \<le> score_of fp c'"
    by blast
  from xs xs' have "pre @ c # post = pre' @ c' # post'" by simp
  then obtain us where
    "(pre = pre' @ us \<and> us @ c # post = c' # post')
     \<or> (pre @ us = pre' \<and> c # post = us @ c' # post')"
    by (auto simp: append_eq_append_conv2)
  then have "c' = c"
  proof (elim disjE conjE)
    assume a: "pre = pre' @ us" and b: "us @ c # post = c' # post'"
    show ?thesis
    proof (cases us)
      case Nil
      with b show ?thesis by simp
    next
      case (Cons u us')
      with b have "u = c'" and "post' = us' @ c # post" by simp_all
      with a Cons have "c' \<in> set pre" and "c \<in> set post'" by simp_all
      with pre post' c c' have "score_of fp c' < score_of fp c"
        and "score_of fp c \<le> score_of fp c'" by blast+
      then show ?thesis by simp
    qed
  next
    assume a: "pre @ us = pre'" and b: "c # post = us @ c' # post'"
    show ?thesis
    proof (cases us)
      case Nil
      with b show ?thesis by simp
    next
      case (Cons u us')
      with b have "u = c" and "post = us' @ c' # post'" by simp_all
      with a Cons have "c \<in> set pre'" and "c' \<in> set post" by auto
      with pre' post c c' have "score_of fp c < score_of fp c'"
        and "score_of fp c' \<le> score_of fp c" by blast+
      then show ?thesis by simp
    qed
  qed
  with r show ?thesis by (simp add: select_best_from_whitelist_def)
qed

text \<open>
  Claim C4, at an input where the code departs from it. Two whitelisted subnets with
  price 1, liquidity 100 and no readable emission both pass the filters for a stake of 1
  at ratio 10 and both have the score 0. The claim makes the earlier of the two the chosen
  one. Neither replaces the initial \<open>best_subnet = None\<close>, because a score of 0 is not
  strictly above the initial \<open>best_score\<close> of 0, and the selection answers that no subnet
  is eligible.
\<close>

theorem select_best_tie_at_zero:
  "survives exact_ops [1, 2] 1 10 (mk_subnet 1 (Some 1) (Some 100) None)
   \<and> survives exact_ops [1, 2] 1 10 (mk_subnet 2 (Some 1) (Some 100) None)
   \<and> score_of exact_ops (mk_subnet 1 (Some 1) (Some 100) None) = 0
   \<and> score_of exact_ops (mk_subnet 2 (Some 1) (Some 100) None) = 0
   \<and> select_best_from_whitelist exact_ops
        [mk_subnet 1 (Some 1) (Some 100) None, mk_subnet 2 (Some 1) (Some 100) None]
        [1, 2] 1 10
       = (None, Some ''No eligible subnets in whitelist'')"
  by (simp add: survives_def score_of_def mk_subnet_def select_best_from_whitelist_def
      select_step_def)

section \<open>Liquidity check\<close>

text \<open>
  Claim C6: \<open>check_liquidity\<close> applies its rules in order. An unreadable liquidity gives
  not-ok with the message that the liquidity cannot be determined; a readable liquidity
  \<open>t \<le> 0\<close> gives not-ok; a positive \<open>t\<close> below \<open>stake * min_ratio\<close> gives not-ok with a
  message that holds both \<open>t\<close> and the required amount; anything else gives ok. The
  product is the one the machine computes, whatever its rounding. The result is a function
  of the subnet, the stake and the ratio alone and they are only read, so two calls on the
  same input give the same output.
\<close>

theorem check_liquidity_rules:
  "(tao_in s = None \<longrightarrow>
      check_liquidity fp s stake min_ratio = (False, 0, Unable_to_determine_pool_liquidity))
   \<and> (tao_in s = Some t \<and> t \<le> 0 \<longrightarrow>
      check_liquidity fp s stake min_ratio = (False, t, Pool_has_zero_liquidity))
   \<and> (tao_in s = Some t \<and> 0 < t \<and> t < fmul fp stake min_ratio \<longrightarrow>
      check_liquidity fp s stake min_ratio
        = (False, t, Pool_below_required t (fmul fp stake min_ratio)))
   \<and> (tao_in s = Some t \<and> 0 < t \<and> \<not> t < fmul fp stake min_ratio \<longrightarrow>
      check_liquidity fp s stake min_ratio = (True, t, OK))"
  by (simp add: check_liquidity_def Let_def)

theorem check_liquidity_rules_witness:
  "check_liquidity exact_ops (mk_subnet 5 (Some 1) None (Some 1)) 1 10
      = (False, 0, Unable_to_determine_pool_liquidity)
   \<and> check_liquidity exact_ops (mk_subnet 5 (Some 1) (Some 0) (Some 1)) 1 10
      = (False, 0, Pool_has_zero_liquidity)
   \<and> check_liquidity exact_ops (mk_subnet 5 (Some 1) (Some 5) (Some 1)) 1 10
      = (False, 5, Pool_below_required 5 10)
   \<and> check_liquidity exact_ops (mk_subnet 5 (Some 1) (Some 100) (Some 1)) 1 10 = (True, 100, OK)"
  using check_liquidity_rules [where fp = exact_ops and stake = 1 and min_ratio = 10
      and s = "mk_subnet 5 (Some 1) None (Some 1)" and t = 0]
    check_liquidity_rules [where fp = exact_ops and stake = 1 and min_ratio = 10
      and s = "mk_subnet 5 (Some 1) (Some 0) (Some 1)" and t = 0]
    check_liquidity_rules [where fp = exact_ops and stake = 1 and min_ratio = 10
      and s = "mk_subnet 5 (Some 1) (Some 5) (Some 1)" and t = 5]
    check_liquidity_rules [where fp = exact_ops and stake = 1 and min_ratio = 10
      and s = "mk_subnet 5 (Some 1) (Some 100) (Some 1)" and t = 100]
  by (simp add: mk_subnet_def)

section \<open>Connection with retry and fallback\<close>

lemma tries_append: "tries (xs @ ys) = tries xs @ tries ys"
  by (induction xs rule: tries.induct) simp_all

lemma attempted_append: "attempted_networks (xs @ ys) = attempted_networks xs @ attempted_networks ys"
  by (induction xs rule: attempted_networks.induct) simp_all

lemma connect_with_retry_cases:
  "connect_with_retry world nw =
     (case attempt_error (connect_attempt world nw 1) of
        None \<Rightarrow> ([Try_connect nw 1], Inr (Subtensor nw))
      | Some e1 \<Rightarrow>
         (case attempt_error (connect_attempt world nw 2) of
            None \<Rightarrow> ([Try_connect nw 1, Try_connect nw 2], Inr (Subtensor nw))
          | Some e2 \<Rightarrow>
             (case attempt_error (connect_attempt world nw 3) of
                None \<Rightarrow> ([Try_connect nw 1, Try_connect nw 2, Try_connect nw 3],
                          Inr (Subtensor nw))
              | Some e3 \<Rightarrow> ([Try_connect nw 1, Try_connect nw 2, Try_connect nw 3],
                            Inl (RetryError e3)))))"
proof -
  have r3: "connect_with_retry_from world nw 3 =
     (case attempt_error (connect_attempt world nw 3) of
        None \<Rightarrow> ([Try_connect nw 3], Inr (Subtensor nw))
      | Some e \<Rightarrow> ([Try_connect nw 3], Inl (RetryError e)))"
    by (subst connect_with_retry_from.simps) (simp split: option.splits)
  have r2: "connect_with_retry_from world nw 2 =
     (case attempt_error (connect_attempt world nw 2) of
        None \<Rightarrow> ([Try_connect nw 2], Inr (Subtensor nw))
      | Some e \<Rightarrow> emit [Try_connect nw 2] (connect_with_retry_from world nw 3))"
    by (subst connect_with_retry_from.simps) (simp split: option.splits)
  have r1: "connect_with_retry_from world nw 1 =
     (case attempt_error (connect_attempt world nw 1) of
        None \<Rightarrow> ([Try_connect nw 1], Inr (Subtensor nw))
      | Some e \<Rightarrow> emit [Try_connect nw 1] (connect_with_retry_from world nw 2))"
    by (subst connect_with_retry_from.simps) (simp add: numeral_2_eq_2 split: option.splits)
  show ?thesis
    unfolding connect_with_retry_def r1 r2 r3
    by (simp add: emit_def split: option.splits)
qed

lemma connect_with_retry_tries:
  "prefix (tries (fst (connect_with_retry world nw))) [(nw, 1), (nw, 2), (nw, 3)]"
  by (simp add: connect_with_retry_cases split: option.splits)

lemma connect_with_retry_attempted:
  "attempted_networks (fst (connect_with_retry world nw)) = []"
  by (simp add: connect_with_retry_cases split: option.splits)

lemma connect_with_retry_Inl:
  "snd (connect_with_retry world nw) = Inl err \<longleftrightarrow>
     (\<forall>k\<in>{1, 2, 3}. attempt_error (connect_attempt world nw k) \<noteq> None)
     \<and> err = RetryError (the (attempt_error (connect_attempt world nw 3)))"
  by (auto simp: connect_with_retry_cases split: option.splits)

lemma connect_with_retry_Inr:
  "snd (connect_with_retry world nw) = Inr sub \<Longrightarrow>
     \<not> (\<forall>k\<in>{1, 2, 3}. attempt_error (connect_attempt world nw k) \<noteq> None)"
  by (auto simp: connect_with_retry_cases split: option.splits)

lemma connect_with_retry_fail_tries:
  "snd (connect_with_retry world nw) = Inl err \<Longrightarrow>
     tries (fst (connect_with_retry world nw)) = [(nw, 1), (nw, 2), (nw, 3)]"
  by (auto simp: connect_with_retry_cases split: option.splits)

lemma all_fail_Cons:
  "all_fail world (nw # nets) \<longleftrightarrow>
     (\<forall>k\<in>{1, 2, 3}. attempt_error (connect_attempt world nw k) \<noteq> None)
     \<and> all_fail world nets"
  by (auto simp: all_fail_def)

lemma all_tries_Cons:
  "all_tries (nw # nets) = [(nw, 1), (nw, 2), (nw, 3)] @ all_tries nets"
  by (simp add: all_tries_def)

lemma connect_loop_prefix:
  "prefix (tries (fst (connect_loop world nets le))) (all_tries nets)
   \<and> prefix (attempted_networks (fst (connect_loop world nets le))) nets"
proof (induction nets arbitrary: le)
  case Nil
  show ?case by (simp add: all_tries_def)
next
  case (Cons nw nets)
  obtain evs r where cr: "connect_with_retry world nw = (evs, r)"
    by (cases "connect_with_retry world nw")
  show ?case
  proof (cases r)
    case (Inr sub)
    from connect_with_retry_tries [of world nw] cr
    have "prefix (tries evs) [(nw, 1), (nw, 2), (nw, 3)]" by simp
    then have "prefix (tries evs) (all_tries (nw # nets))"
      unfolding all_tries_Cons by (rule prefix_prefix)
    moreover from connect_with_retry_attempted [of world nw] cr
    have "attempted_networks evs = []" by simp
    ultimately show ?thesis using cr Inr
      by (simp add: tries_append attempted_append)
  next
    case (Inl e)
    from connect_with_retry_fail_tries [of world nw e] cr Inl
    have "tries evs = [(nw, 1), (nw, 2), (nw, 3)]" by simp
    moreover from connect_with_retry_attempted [of world nw] cr
    have "attempted_networks evs = []" by simp
    ultimately show ?thesis using cr Inl Cons.IH [of "Some e"]
      by (simp add: tries_append attempted_append emit_def all_tries_Cons)
  qed
qed

lemma connect_loop_fails:
  "snd (connect_loop world nets le) = Inl err \<longleftrightarrow>
     all_fail world nets
     \<and> err = ConnectionError
         (if nets = [] then le
          else Some (RetryError (the (attempt_error (connect_attempt world (last nets) 3)))))"
proof (induction nets arbitrary: le)
  case Nil
  show ?case by (auto simp: all_fail_def)
next
  case (Cons nw nets)
  obtain evs r where cr: "connect_with_retry world nw = (evs, r)"
    by (cases "connect_with_retry world nw")
  show ?case
  proof (cases r)
    case (Inr sub)
    with cr have "\<not> (\<forall>k\<in>{1, 2, 3}. attempt_error (connect_attempt world nw k) \<noteq> None)"
      using connect_with_retry_Inr [of world nw sub] by simp
    with cr Inr show ?thesis by (auto simp: all_fail_Cons)
  next
    case (Inl e)
    with cr have f: "\<forall>k\<in>{1, 2, 3}. attempt_error (connect_attempt world nw k) \<noteq> None"
      and e: "e = RetryError (the (attempt_error (connect_attempt world nw 3)))"
      using connect_with_retry_Inl [of world nw e] by auto
    from cr Inl have "snd (connect_loop world (nw # nets) le)
        = snd (connect_loop world nets (Some e))"
      by (simp add: emit_def)
    with Cons.IH [of "Some e"] f e show ?thesis
      by (auto simp: all_fail_Cons)
  qed
qed

lemma connect_loop_fail_trace:
  "snd (connect_loop world nets le) = Inl err \<Longrightarrow>
     tries (fst (connect_loop world nets le)) = all_tries nets
     \<and> attempted_networks (fst (connect_loop world nets le)) = nets"
proof (induction nets arbitrary: le)
  case Nil
  show ?case by (simp add: all_tries_def)
next
  case (Cons nw nets)
  obtain evs r where cr: "connect_with_retry world nw = (evs, r)"
    by (cases "connect_with_retry world nw")
  show ?case
  proof (cases r)
    case (Inr sub)
    with cr Cons.prems show ?thesis by simp
  next
    case (Inl e)
    from connect_with_retry_fail_tries [of world nw e] cr Inl
    have t: "tries evs = [(nw, 1), (nw, 2), (nw, 3)]" by simp
    from connect_with_retry_attempted [of world nw] cr
    have a: "attempted_networks evs = []" by simp
    from cr Inl Cons.prems have "snd (connect_loop world nets (Some e)) = Inl err"
      by (simp add: emit_def)
    from Cons.IH [OF this] t a cr Inl show ?thesis
      by (simp add: tries_append attempted_append emit_def all_tries_Cons)
  qed
qed

lemma networks_to_try_distinct: "distinct (networks_to_try p)"
  by (simp add: networks_to_try_def FALLBACK_NETWORKS_def)

lemma count_all_tries:
  "length (filter (\<lambda>t. fst t = nw) (all_tries nets)) = 3 * count_list nets nw"
  by (induction nets) (simp_all add: all_tries_def)

lemma prefix_filter_length:
  "prefix xs ys \<Longrightarrow> length (filter P xs) \<le> length (filter P ys)"
  by (auto simp: prefix_def)

lemma count_list_distinct: "distinct xs \<Longrightarrow> count_list xs x \<le> 1"
  by (induction xs) auto


text \<open>
  Claim C8: the tries of \<open>connect_to_bittensor\<close> are an initial part of three tries on
  each network in order, so no network is tried more than three times and a network is
  reached only after three failed tries on each network before it. The connector fails
  exactly when every try on every network raises (a raising liveness call is a failed
  try); then all tries of all networks were made and the \<open>ConnectionError\<close> carries the
  error of the last network, which wraps the exception of its third try.
\<close>

theorem connect_retry_bound:
  "prefix (tries (fst (connect_to_bittensor world p))) (all_tries (networks_to_try p))
   \<and> length (filter (\<lambda>t. fst t = nw) (tries (fst (connect_to_bittensor world p)))) \<le> 3
   \<and> ((\<exists>e. snd (connect_to_bittensor world p) = Inl e)
        \<longleftrightarrow> all_fail world (networks_to_try p))
   \<and> (snd (connect_to_bittensor world p) = Inl err \<longrightarrow>
        tries (fst (connect_to_bittensor world p)) = all_tries (networks_to_try p)
        \<and> attempted_networks (fst (connect_to_bittensor world p)) = networks_to_try p
        \<and> attempt_error (connect_attempt world (last (networks_to_try p)) 3) \<noteq> None
        \<and> err = ConnectionError (Some (RetryError
             (the (attempt_error (connect_attempt world (last (networks_to_try p)) 3))))))"
proof (intro conjI impI)
  let ?nets = "networks_to_try p"
  let ?c = "connect_to_bittensor world p"
  have ne: "?nets \<noteq> []" by (simp add: networks_to_try_def)
  show pre: "prefix (tries (fst ?c)) (all_tries ?nets)"
    unfolding connect_to_bittensor_def using connect_loop_prefix by blast
  have "length (filter (\<lambda>t. fst t = nw) (tries (fst ?c)))
      \<le> length (filter (\<lambda>t. fst t = nw) (all_tries ?nets))"
    using pre by (rule prefix_filter_length)
  also have "\<dots> = 3 * count_list ?nets nw" by (rule count_all_tries)
  also have "\<dots> \<le> 3"
    using count_list_distinct [OF networks_to_try_distinct, of p nw] by simp
  finally show "length (filter (\<lambda>t. fst t = nw) (tries (fst ?c))) \<le> 3" .
  show "(\<exists>e. snd ?c = Inl e) \<longleftrightarrow> all_fail world ?nets"
    unfolding connect_to_bittensor_def by (simp add: connect_loop_fails)
  assume f: "snd ?c = Inl err"
  then have l: "snd (connect_loop world ?nets None) = Inl err"
    by (simp add: connect_to_bittensor_def)
  from connect_loop_fail_trace [OF l]
  show "tries (fst ?c) = all_tries ?nets" "attempted_networks (fst ?c) = ?nets"
    by (simp_all add: connect_to_bittensor_def)
  from l have af: "all_fail world ?nets"
    and e: "err = ConnectionError (Some (RetryError
             (the (attempt_error (connect_attempt world (last ?nets) 3)))))"
    using ne by (simp_all add: connect_loop_fails)
  from e show "err = ConnectionError (Some (RetryError
             (the (attempt_error (connect_attempt world (last ?nets) 3)))))" .
  from ne have "last ?nets \<in> set ?nets" by (rule last_in_set)
  with af show "attempt_error (connect_attempt world (last ?nets) 3) \<noteq> None"
    unfolding all_fail_def by blast
qed

text \<open>A world in which every liveness call raises, with preferred network archive.\<close>

theorem connect_retry_bound_witness:
  "all_fail dead_world (networks_to_try ''archive'')
   \<and> snd (connect_to_bittensor dead_world ''archive'')
       = Inl (ConnectionError (Some (RetryError (Exn ''no block''))))
   \<and> tries (fst (connect_to_bittensor dead_world ''archive''))
       = [(''archive'', 1), (''archive'', 2), (''archive'', 3),
          (''finney'', 1), (''finney'', 2), (''finney'', 3),
          (''subvortex'', 1), (''subvortex'', 2), (''subvortex'', 3)]"
proof -
  have f: "all_fail dead_world (networks_to_try ''archive'')"
    by (simp add: all_fail_def dead_world_def)
  have n: "networks_to_try ''archive'' = [''archive'', ''finney'', ''subvortex'']"
    by (simp add: networks_to_try_def FALLBACK_NETWORKS_def)
  from connect_retry_bound [of dead_world "''archive''" "''finney''"] f
  obtain e where e: "snd (connect_to_bittensor dead_world ''archive'') = Inl e"
    by blast
  from connect_retry_bound [of dead_world "''archive''" "''finney''" e] e
  have "tries (fst (connect_to_bittensor dead_world ''archive''))
          = all_tries (networks_to_try ''archive'')"
    and "e = ConnectionError (Some (RetryError (the (attempt_error
          (connect_attempt dead_world (last (networks_to_try ''archive'')) 3)))))"
    by simp_all
  with f e show ?thesis
    by (simp add: n all_tries_def dead_world_def)
qed

section \<open>The run and its exit code\<close>

lemma fst_emit: "fst (emit evs r) = evs @ fst r"
  by (simp add: emit_def)

lemma snd_emit: "snd (emit evs r) = snd r"
  by (simp add: emit_def)

lemma snd_stake_on:
  "snd (stake_on fp cfg world s) =
     (case price s of
        None \<Rightarrow> Inr 1
      | Some p \<Rightarrow>
          (if \<not> fst (check_liquidity fp s (stake_amount cfg) (min_liquidity_ratio cfg)) then Inr 0
           else if dry_run cfg then Inr 0
           else (case add_stake world (validator_hotkey cfg) (netuid s) (stake_amount cfg) of
                   Inl e \<Rightarrow> Inr 1
                 | Inr success \<Rightarrow> (if success then Inr 0 else Inr 1))))"
  by (simp add: stake_on_def snd_emit execute_stake_def
      split: option.splits prod.splits sum.splits)

lemma snd_resolve_target:
  "snd (resolve_target fp cfg world) =
     (case target_netuid cfg of
        Some n \<Rightarrow>
          (case all_subnets world of
             Inl e \<Rightarrow> Inl e
           | Inr subnets \<Rightarrow>
               (case get_subnet_by_netuid subnets n of
                  None \<Rightarrow> Inr 1
                | Some s \<Rightarrow> snd (stake_on fp cfg world s)))
      | None \<Rightarrow>
          (if whitelist cfg \<noteq> []
           then (case all_subnets world of
                   Inl e \<Rightarrow> Inl e
                 | Inr subnets \<Rightarrow>
                     (case fst (select_best_from_whitelist fp subnets (whitelist cfg)
                            (stake_amount cfg) (min_liquidity_ratio cfg)) of
                        None \<Rightarrow> Inr 0
                      | Some s \<Rightarrow> snd (stake_on fp cfg world s)))
           else Inr 1))"
  by (simp add: resolve_target_def snd_emit split: option.splits prod.splits sum.splits)

lemma snd_run_body:
  "snd (run_body fp cfg world) =
     (case wallet_unlock world (wallet_name cfg) of
        Inl e \<Rightarrow> Inr 1
      | Inr w \<Rightarrow>
          (case get_balance world of
             Inl e \<Rightarrow> Inr 1
           | Inr balance \<Rightarrow>
               (if balance < fadd fp (stake_amount cfg) 0.01 then Inr 1
                else snd (resolve_target fp cfg world))))"
  by (simp add: run_body_def unlock_wallet_def snd_emit split: sum.splits)

lemma connect_result:
  "(\<exists>sub. snd (connect_to_bittensor world p) = Inr sub
        \<and> \<not> all_fail world (networks_to_try p))
   \<or> (\<exists>le. snd (connect_to_bittensor world p) = Inl (ConnectionError le)
        \<and> all_fail world (networks_to_try p))"
proof (cases "snd (connect_to_bittensor world p)")
  case (Inl e)
  then show ?thesis
    unfolding connect_to_bittensor_def by (simp add: connect_loop_fails)
next
  case (Inr sub)
  then have "\<not> all_fail world (networks_to_try p)"
    unfolding connect_to_bittensor_def
    using connect_loop_fails [of world "networks_to_try p" None] by auto
  with Inr show ?thesis by simp
qed

lemma run_connected:
  assumes "\<not> all_fail world (networks_to_try (network cfg))"
  shows "run fp cfg world =
     (fst (connect_to_bittensor world (network cfg)) @ fst (run_body fp cfg world) @ [Call_close],
      snd (run_body fp cfg world))"
proof -
  from connect_result [of world "network cfg"] assms
  obtain sub where "snd (connect_to_bittensor world (network cfg)) = Inr sub" by blast
  then show ?thesis
    by (cases "connect_to_bittensor world (network cfg)")
       (simp add: run_def split: prod.splits)
qed

lemma run_not_connected:
  assumes "all_fail world (networks_to_try (network cfg))"
  shows "\<exists>e. run fp cfg world =
     (fst (connect_to_bittensor world (network cfg)) @ [Log_Connection_failed e], Inr 1)"
proof -
  from connect_result [of world "network cfg"] assms
  obtain le where "snd (connect_to_bittensor world (network cfg)) = Inl (ConnectionError le)"
    by blast
  then show ?thesis
    by (cases "connect_to_bittensor world (network cfg)") (simp add: run_def)
qed

lemma connect_with_retry_events:
  "\<forall>ev\<in>set (fst (connect_with_retry world nw)). is_connect_event ev"
  by (simp add: connect_with_retry_cases split: option.splits)

lemma connect_loop_events:
  "\<forall>ev\<in>set (fst (connect_loop world nets le)). is_connect_event ev"
proof (induction nets arbitrary: le)
  case Nil
  show ?case by simp
next
  case (Cons nw nets)
  obtain evs r where cr: "connect_with_retry world nw = (evs, r)"
    by (cases "connect_with_retry world nw")
  with connect_with_retry_events [of world nw]
  have evs: "\<forall>ev\<in>set evs. is_connect_event ev" by simp
  show ?case
  proof (cases r)
    case (Inr sub)
    with cr evs show ?thesis by simp
  next
    case (Inl e)
    with cr evs Cons.IH [of "Some e"] show ?thesis
      by (auto simp: fst_emit)
  qed
qed

lemma connect_events:
  "ev \<in> set (fst (connect_to_bittensor world p)) \<Longrightarrow> is_connect_event ev"
  unfolding connect_to_bittensor_def using connect_loop_events by blast

lemma stake_on_no_close: "Call_close \<notin> set (fst (stake_on fp cfg world s))"
  by (simp add: stake_on_def fst_emit execute_stake_def
      split: option.splits prod.splits sum.splits)

lemma resolve_target_no_close: "Call_close \<notin> set (fst (resolve_target fp cfg world))"
  by (simp add: resolve_target_def fst_emit stake_on_no_close
      split: option.splits prod.splits sum.splits)

lemma run_body_no_close: "Call_close \<notin> set (fst (run_body fp cfg world))"
  by (simp add: run_body_def unlock_wallet_def fst_emit resolve_target_no_close
      split: option.splits prod.splits sum.splits)

lemma stake_on_skipping:
  "Log_Skipping_stake \<in> set (fst (stake_on fp cfg world s)) \<Longrightarrow>
     \<not> fst (check_liquidity fp s (stake_amount cfg) (min_liquidity_ratio cfg))"
  by (auto simp: stake_on_def fst_emit execute_stake_def
      split: option.splits prod.splits sum.splits if_splits)




lemma run_events:
  "ev \<in> set (fst (run fp cfg world)) \<Longrightarrow>
     is_connect_event ev \<or> ev \<in> set (fst (run_body fp cfg world)) \<or> ev = Call_close
     \<or> (\<exists>e. ev = Log_Connection_failed e)"
proof (cases "all_fail world (networks_to_try (network cfg))")
  case True
  assume "ev \<in> set (fst (run fp cfg world))"
  with run_not_connected [OF True, of fp] show ?thesis
    by (auto dest: connect_events)
next
  case False
  assume "ev \<in> set (fst (run fp cfg world))"
  with run_connected [OF False, of fp] show ?thesis
    by (auto dest: connect_events)
qed

lemma snd_run:
  "snd (run fp cfg world) =
     (if all_fail world (networks_to_try (network cfg)) then Inr 1
      else snd (run_body fp cfg world))"
proof (cases "all_fail world (networks_to_try (network cfg))")
  case True
  with run_not_connected [OF True, of fp] show ?thesis by auto
next
  case False
  with run_connected [OF False, of fp] show ?thesis by simp
qed

text \<open>
  Claim C9: a connection is established exactly when not all tries fail. When it is
  established, \<open>close\<close> is called exactly once in the run, as its last action, whatever
  the body of the run did (success, skip, failure or an escaping exception). When no
  connection is established, \<open>close\<close> is not called.
\<close>

theorem connection_closed_once:
  "((\<exists>sub. snd (connect_to_bittensor world (network cfg)) = Inr sub)
      \<longleftrightarrow> \<not> all_fail world (networks_to_try (network cfg)))
   \<and> (\<not> all_fail world (networks_to_try (network cfg)) \<longrightarrow>
        count_list (fst (run fp cfg world)) Call_close = 1
        \<and> last (fst (run fp cfg world)) = Call_close)
   \<and> (all_fail world (networks_to_try (network cfg)) \<longrightarrow>
        count_list (fst (run fp cfg world)) Call_close = 0)"
proof (intro conjI impI)
  show "(\<exists>sub. snd (connect_to_bittensor world (network cfg)) = Inr sub)
      \<longleftrightarrow> \<not> all_fail world (networks_to_try (network cfg))"
    using connect_result [of world "network cfg"] by auto
next
  assume c: "\<not> all_fail world (networks_to_try (network cfg))"
  have "Call_close \<notin> set (fst (connect_to_bittensor world (network cfg)))"
    using connect_events [of Call_close world "network cfg"] by auto
  then show "count_list (fst (run fp cfg world)) Call_close = 1"
    by (simp add: run_connected [OF c, of fp] run_body_no_close)
  show "last (fst (run fp cfg world)) = Call_close"
    by (simp add: run_connected [OF c, of fp])
next
  assume f: "all_fail world (networks_to_try (network cfg))"
  have "Call_close \<notin> set (fst (connect_to_bittensor world (network cfg)))"
    using connect_events [of Call_close world "network cfg"] by auto
  with run_not_connected [OF f, of fp] show "count_list (fst (run fp cfg world)) Call_close = 0"
    by auto
qed

theorem connection_closed_once_witness:
  "count_list (fst (run exact_ops (sample_config (Some 5) [] True) sample_world)) Call_close = 1
   \<and> last (fst (run exact_ops (sample_config (Some 5) [] True) sample_world)) = Call_close
   \<and> count_list (fst (run exact_ops (sample_config (Some 5) [] True) dead_world)) Call_close = 0"
proof -
  have a: "\<not> all_fail sample_world (networks_to_try (network (sample_config (Some 5) [] True)))"
    by (auto simp: all_fail_def sample_world_def sample_config_def networks_to_try_def)
  have d: "all_fail dead_world (networks_to_try (network (sample_config (Some 5) [] True)))"
    by (simp add: all_fail_def dead_world_def)
  from a d
    connection_closed_once [where world = sample_world and fp = exact_ops
      and cfg = "sample_config (Some 5) [] True"]
    connection_closed_once [where world = dead_world and fp = exact_ops
      and cfg = "sample_config (Some 5) [] True"]
  show ?thesis by blast
qed

lemma sample_world_connects:
  "\<not> all_fail sample_world (networks_to_try (network (sample_config target wl dry)))"
  by (auto simp: all_fail_def sample_world_def sample_config_def networks_to_try_def)



lemma run_body_reaches:
  "reaches_resolution fp cfg world \<Longrightarrow>
     set (fst (resolve_target fp cfg world)) \<subseteq> set (fst (run_body fp cfg world))"
  by (auto simp: reaches_resolution_def run_body_def unlock_wallet_def fst_emit
      split: sum.splits)

lemma run_reaches:
  assumes "reaches_resolution fp cfg world"
  shows "set (fst (resolve_target fp cfg world)) \<subseteq> set (fst (run fp cfg world))"
proof -
  from assms have c: "\<not> all_fail world (networks_to_try (network cfg))"
    by (simp add: reaches_resolution_def)
  from run_body_reaches [OF assms] show ?thesis
    by (auto simp: run_connected [OF c, of fp])
qed



lemma all_fail_all_subnets:
  "all_fail (world\<lparr>all_subnets := x\<rparr>) nets = all_fail world nets"
  by (simp add: all_fail_def)

lemma underflow_tiny: "fmul underflow_ops (1 / 2 ^ 600) (1 / 2 ^ 600) = 0"
proof -
  have "(1 / 2 ^ 600) * (1 / 2 ^ 600) = 1 / (2 :: real) ^ 1200"
    by (simp add: power_add [symmetric])
  moreover have "1 / (2 :: real) ^ 1200 \<le> 1 / 2 ^ 1075"
    by (intro divide_left_mono power_increasing) simp_all
  ultimately have "\<bar>(1 / 2 ^ 600) * (1 / 2 ^ 600 :: real)\<bar> \<le> 1 / 2 ^ 1075"
    by simp
  then show ?thesis
    unfolding underflow_ops_def by (simp del: power_numeral)
qed

text \<open>
  Claim C10 as stated fails. With a stake and a ratio of \<open>2\<close> to the power \<open>-600\<close>, both
  positive, the product that the machine computes is 0. A whitelisted subnet with price 1,
  emission 1 and an empty pool then passes the liquidity filter of the selection, since 0
  is not below 0, and is returned; \<open>check_liquidity\<close> rejects it for its zero liquidity and
  the run, which is in whitelist mode, logs the liquidity skip.
\<close>

theorem selected_fails_liquidity_counterexample:
  "0 < stake_amount tiny_config
   \<and> 0 < min_liquidity_ratio tiny_config
   \<and> target_netuid tiny_config = None
   \<and> select_best_from_whitelist underflow_ops [mk_subnet 7 (Some 1) (Some 0) (Some 1)]
        (whitelist tiny_config) (stake_amount tiny_config) (min_liquidity_ratio tiny_config)
       = (Some (mk_subnet 7 (Some 1) (Some 0) (Some 1)), None)
   \<and> check_liquidity underflow_ops (mk_subnet 7 (Some 1) (Some 0) (Some 1))
        (stake_amount tiny_config) (min_liquidity_ratio tiny_config)
       = (False, 0, Pool_has_zero_liquidity)
   \<and> Log_Skipping_stake \<in> set (fst (run underflow_ops tiny_config empty_pool_world))
   \<and> snd (run underflow_ops tiny_config empty_pool_world) = Inr 0"
proof -
  have cfg: "stake_amount tiny_config = 1 / 2 ^ 600"
    "min_liquidity_ratio tiny_config = 1 / 2 ^ 600"
    "target_netuid tiny_config = None" "whitelist tiny_config = [7]"
    "network tiny_config = ''finney''" "wallet_name tiny_config = ''default''"
    by (simp_all add: tiny_config_def sample_config_def)
  have pos: "0 < stake_amount tiny_config" "0 < min_liquidity_ratio tiny_config"
    by (simp_all add: cfg)
  have div: "fdiv underflow_ops 1 1 = 1" by (simp add: underflow_ops_def)
  have sel: "select_best_from_whitelist underflow_ops [mk_subnet 7 (Some 1) (Some 0) (Some 1)]
        (whitelist tiny_config) (stake_amount tiny_config) (min_liquidity_ratio tiny_config)
       = (Some (mk_subnet 7 (Some 1) (Some 0) (Some 1)), None)"
    by (simp add: cfg underflow_tiny div select_best_from_whitelist_def select_step_def
        mk_subnet_def del: power_numeral)
  have chk: "check_liquidity underflow_ops (mk_subnet 7 (Some 1) (Some 0) (Some 1))
        (stake_amount tiny_config) (min_liquidity_ratio tiny_config)
       = (False, 0, Pool_has_zero_liquidity)"
    by (simp add: check_liquidity_def mk_subnet_def)
  have conn: "\<not> all_fail empty_pool_world (networks_to_try (network tiny_config))"
    using sample_world_connects [of None "[7]" False]
    by (simp add: empty_pool_world_def all_fail_all_subnets cfg sample_config_def)
  have bal: "\<not> (100 :: real) < fadd underflow_ops (1 / 2 ^ 600) 0.01"
    by (simp add: underflow_ops_def)
  have body: "resolve_target underflow_ops tiny_config empty_pool_world
      = ([Log_Selecting_best [7],
          Log_Subnet_price 7 ''sn'' 1,
          Log_Liquidity_check Pool_has_zero_liquidity,
          Log_Skipping_stake], Inr 0)"
    using sel chk
    by (simp add: resolve_target_def stake_on_def emit_def cfg empty_pool_world_def
        sample_world_def mk_subnet_def del: power_numeral)
  have reach: "reaches_resolution underflow_ops tiny_config empty_pool_world"
    using conn bal
    by (simp add: reaches_resolution_def cfg del: power_numeral)
       (simp add: cfg empty_pool_world_def sample_world_def del: power_numeral)
  from run_reaches [OF reach] body
  have skip: "Log_Skipping_stake \<in> set (fst (run underflow_ops tiny_config empty_pool_world))"
    by auto
  have "snd (run underflow_ops tiny_config empty_pool_world)
      = snd (resolve_target underflow_ops tiny_config empty_pool_world)"
    using reach
    by (auto simp: reaches_resolution_def snd_run snd_run_body split: sum.splits)
  with body have code: "snd (run underflow_ops tiny_config empty_pool_world) = Inr 0"
    by simp
  from pos cfg(3) sel chk skip code show ?thesis by simp
qed

text \<open>
  Claim C10, amended: when the threshold \<open>stake_amount * min_liquidity_ratio\<close>, as the
  machine computes it, is positive, \<open>check_liquidity\<close> accepts every candidate that
  \<open>select_best_from_whitelist\<close> returns for the same stake and ratio, and a run without a
  target id, that is a run in whitelist mode, never logs the liquidity skip. Under that
  condition the skip can only happen in explicit-id mode. The condition replaces the one
  of the claim, a positive stake and a positive ratio, which is the same for exact
  arithmetic.
\<close>

theorem selected_passes_liquidity_check:
  assumes pos: "0 < fmul fp (stake_amount cfg) (min_liquidity_ratio cfg)"
  shows "(select_best_from_whitelist fp xs wl (stake_amount cfg) (min_liquidity_ratio cfg)
            = (Some c, e) \<longrightarrow>
          fst (check_liquidity fp c (stake_amount cfg) (min_liquidity_ratio cfg)))
       \<and> (target_netuid cfg = None \<longrightarrow> Log_Skipping_stake \<notin> set (fst (run fp cfg world)))"
proof -
  have ok: "fst (check_liquidity fp s (stake_amount cfg) (min_liquidity_ratio cfg))"
    if "survives fp ws (stake_amount cfg) (min_liquidity_ratio cfg) s" for ws s
  proof -
    from that obtain t where t: "tao_in s = Some t"
      and ge: "\<not> t < fmul fp (stake_amount cfg) (min_liquidity_ratio cfg)"
      by (auto simp: survives_def split: option.splits)
    from ge pos have "0 < t" by simp
    with t ge show ?thesis by (simp add: check_liquidity_def Let_def)
  qed
  have sel_ok: "fst (check_liquidity fp s (stake_amount cfg) (min_liquidity_ratio cfg))"
    if "select_best_from_whitelist fp ys ws (stake_amount cfg) (min_liquidity_ratio cfg)
            = (Some s, err)" for ys ws s err
  proof -
    from select_best_sound [OF that]
    have "survives fp ws (stake_amount cfg) (min_liquidity_ratio cfg) s" by simp
    then show ?thesis by (rule ok)
  qed
  have no_skip: "Log_Skipping_stake \<notin> set (fst (run fp cfg world))"
    if none: "target_netuid cfg = None"
  proof
    assume "Log_Skipping_stake \<in> set (fst (run fp cfg world))"
    from run_events [OF this] have "Log_Skipping_stake \<in> set (fst (run_body fp cfg world))"
      by auto
    then have "Log_Skipping_stake \<in> set (fst (resolve_target fp cfg world))"
      by (auto simp: run_body_def unlock_wallet_def fst_emit split: sum.splits if_splits)
    with none obtain subnets s err where
      sel: "select_best_from_whitelist fp subnets (whitelist cfg) (stake_amount cfg)
              (min_liquidity_ratio cfg) = (Some s, err)"
      and sk: "Log_Skipping_stake \<in> set (fst (stake_on fp cfg world s))"
      by (auto simp: resolve_target_def fst_emit
          split: sum.splits if_splits option.splits prod.splits)
    from sel_ok [OF sel] stake_on_skipping [OF sk] show False by simp
  qed
  from sel_ok no_skip show ?thesis by blast
qed

theorem selected_passes_liquidity_check_witness:
  "fst (check_liquidity exact_ops (mk_subnet 7 (Some 1) (Some 50) (Some 1)) 1 10)
   \<and> Log_Skipping_stake \<notin> set (fst (run exact_ops (sample_config None [3, 7] False) sample_world))"
proof -
  let ?cfg = "sample_config None [3, 7] False"
  have p: "0 < fmul exact_ops (stake_amount ?cfg) (min_liquidity_ratio ?cfg)"
    by (simp add: sample_config_def)
  have s: "select_best_from_whitelist exact_ops
       [mk_subnet 5 (Some (2 / 100)) (Some 100) (Some 1),
        mk_subnet 3 (Some 1) (Some 5) (Some 9),
        mk_subnet 7 (Some 1) (Some 50) (Some 1)]
       [3, 7] (stake_amount ?cfg) (min_liquidity_ratio ?cfg)
     = (Some (mk_subnet 7 (Some 1) (Some 50) (Some 1)), None)"
    by (simp add: sample_config_def select_best_from_whitelist_def select_step_def
        mk_subnet_def)
  have n: "target_netuid ?cfg = None" by (simp add: sample_config_def)
  from selected_passes_liquidity_check [OF p, where
      xs = "[mk_subnet 5 (Some (2 / 100)) (Some 100) (Some 1),
        mk_subnet 3 (Some 1) (Some 5) (Some 9),
        mk_subnet 7 (Some 1) (Some 50) (Some 1)]" and wl = "[3, 7]"
      and c = "mk_subnet 7 (Some 1) (Some 50) (Some 1)" and e = None
      and world = sample_world] s n
  show ?thesis by (simp add: sample_config_def)
qed

text \<open>
  The exit code of the run, as the code computes it. A configuration that cannot be
  loaded makes \<open>main\<close> return 1, and the status of the process is 0 exactly when \<open>run\<close>
  returns 0. \<open>run\<close> returns 1 when all connection tries fail, when the wallet cannot be
  unlocked, when the balance cannot be read or is below the stake plus 0.01, when neither
  a target id nor a whitelist is configured, when the target id is not among the subnets,
  when the price of the candidate cannot be read, and when the stake call raises or
  returns false. It returns 0 exactly when it reaches resolution and either the whitelist
  has no eligible candidate, or the candidate has a readable price and the liquidity check
  fails, the run is a dry run, or the stake call returns true. A price that is readable
  and not positive does not make the run fail.
\<close>

lemma run_exit_codes:
  "exit_status (snd (main fp (Inl e0) cli world)) = 1
   \<and> exit_status (snd (main fp (Inr cfg) False world))
        = (if snd (run fp cfg world) = Inr 0 then 0 else 1)
   \<and> exit_status (snd (main fp (Inr cfg) True world))
        = (if snd (run fp (cfg\<lparr>dry_run := True\<rparr>) world) = Inr 0 then 0 else 1)
   \<and> (all_fail world (networks_to_try (network cfg)) \<longrightarrow> snd (run fp cfg world) = Inr 1)
   \<and> (wallet_unlock world (wallet_name cfg) = Inl e1 \<longrightarrow> snd (run fp cfg world) = Inr 1)
   \<and> (get_balance world = Inl e2 \<longrightarrow> snd (run fp cfg world) = Inr 1)
   \<and> (get_balance world = Inr b \<and> b < fadd fp (stake_amount cfg) 0.01 \<longrightarrow>
        snd (run fp cfg world) = Inr 1)
   \<and> (target_netuid cfg = None \<and> whitelist cfg = [] \<longrightarrow> snd (run fp cfg world) = Inr 1)
   \<and> (target_netuid cfg = Some n \<and> all_subnets world = Inr subnets
        \<and> get_subnet_by_netuid subnets n = None \<longrightarrow> snd (run fp cfg world) = Inr 1)
   \<and> (chosen fp cfg world = Some s \<and> price s = None \<longrightarrow> snd (run fp cfg world) = Inr 1)
   \<and> (chosen fp cfg world = Some s
        \<and> fst (check_liquidity fp s (stake_amount cfg) (min_liquidity_ratio cfg))
        \<and> \<not> dry_run cfg
        \<and> add_stake world (validator_hotkey cfg) (netuid s) (stake_amount cfg) \<noteq> Inr True
        \<longrightarrow> snd (run fp cfg world) = Inr 1)
   \<and> (snd (run fp cfg world) = Inr 0 \<longleftrightarrow>
        reaches_resolution fp cfg world
        \<and> (case chosen fp cfg world of
             None \<Rightarrow>
               target_netuid cfg = None \<and> whitelist cfg \<noteq> []
               \<and> (case all_subnets world of Inl e \<Rightarrow> False | Inr subnets \<Rightarrow> True)
           | Some s \<Rightarrow>
               price s \<noteq> None
               \<and> (\<not> fst (check_liquidity fp s (stake_amount cfg) (min_liquidity_ratio cfg))
                  \<or> dry_run cfg
                  \<or> add_stake world (validator_hotkey cfg) (netuid s) (stake_amount cfg)
                      = Inr True)))"
proof -
  note run_simps = snd_run snd_run_body snd_resolve_target snd_stake_on
  have config_error: "exit_status (snd (main fp (Inl e0) cli world)) = 1"
    by (simp add: main_def exit_status_def)
  have codes: "snd (run fp c world) = Inr 0 \<or> snd (run fp c world) = Inr 1
        \<or> (\<exists>e. snd (run fp c world) = Inl e)" for c
    by (simp add: run_simps split: sum.splits option.splits)
  have status: "exit_status (snd (main fp (Inr cfg) False world))
        = (if snd (run fp cfg world) = Inr 0 then 0 else 1)"
    using codes [of cfg]
    by (cases "run fp cfg world")
       (auto simp: main_def exit_status_def snd_emit split: sum.splits)
  have status_dry: "exit_status (snd (main fp (Inr cfg) True world))
        = (if snd (run fp (cfg\<lparr>dry_run := True\<rparr>) world) = Inr 0 then 0 else 1)"
    using codes [of "cfg\<lparr>dry_run := True\<rparr>"]
    by (cases "run fp (cfg\<lparr>dry_run := True\<rparr>) world")
       (auto simp: main_def exit_status_def snd_emit split: sum.splits)
  have connection: "snd (run fp cfg world) = Inr 1"
    if "all_fail world (networks_to_try (network cfg))"
    using that by (simp add: snd_run)
  have wallet: "snd (run fp cfg world) = Inr 1"
    if "wallet_unlock world (wallet_name cfg) = Inl e1"
    using that by (simp add: snd_run snd_run_body)
  have balance_raises: "snd (run fp cfg world) = Inr 1" if "get_balance world = Inl e2"
    using that by (simp add: snd_run snd_run_body split: sum.splits)
  have balance_low: "snd (run fp cfg world) = Inr 1"
    if "get_balance world = Inr b \<and> b < fadd fp (stake_amount cfg) 0.01"
    using that by (simp add: snd_run snd_run_body split: sum.splits)
  have neither: "snd (run fp cfg world) = Inr 1"
    if "target_netuid cfg = None \<and> whitelist cfg = []"
    using that by (simp add: snd_run snd_run_body snd_resolve_target split: sum.splits)
  have not_found: "snd (run fp cfg world) = Inr 1"
    if "target_netuid cfg = Some n \<and> all_subnets world = Inr subnets
        \<and> get_subnet_by_netuid subnets n = None"
    using that by (simp add: snd_run snd_run_body snd_resolve_target split: sum.splits)
  have invalid_price: "snd (run fp cfg world) = Inr 1"
    if "chosen fp cfg world = Some s \<and> price s = None"
    using that
    by (auto simp: run_simps chosen_def split: sum.splits option.splits if_splits)
  have stake_fails: "snd (run fp cfg world) = Inr 1"
    if "chosen fp cfg world = Some s
        \<and> fst (check_liquidity fp s (stake_amount cfg) (min_liquidity_ratio cfg))
        \<and> \<not> dry_run cfg
        \<and> add_stake world (validator_hotkey cfg) (netuid s) (stake_amount cfg) \<noteq> Inr True"
    using that
    by (auto simp: run_simps chosen_def split: sum.splits option.splits if_splits)
  have zero: "snd (run fp cfg world) = Inr 0 \<longleftrightarrow>
        reaches_resolution fp cfg world
        \<and> (case chosen fp cfg world of
             None \<Rightarrow>
               target_netuid cfg = None \<and> whitelist cfg \<noteq> []
               \<and> (case all_subnets world of Inl e \<Rightarrow> False | Inr subnets \<Rightarrow> True)
           | Some s \<Rightarrow>
               price s \<noteq> None
               \<and> (\<not> fst (check_liquidity fp s (stake_amount cfg) (min_liquidity_ratio cfg))
                  \<or> dry_run cfg
                  \<or> add_stake world (validator_hotkey cfg) (netuid s) (stake_amount cfg)
                      = Inr True))"
    by (auto simp: run_simps chosen_def reaches_resolution_def
        split: sum.splits option.splits if_splits)
  from config_error status status_dry connection wallet balance_raises balance_low neither not_found
    invalid_price stake_fails zero
  show ?thesis by blast
qed

text \<open>
  Claim C5, at an input where the code departs from it. In explicit-id mode the target
  subnet 5 has the price 0, which is not a valid price. The run does not fail: it logs the
  price, passes the liquidity check, submits the stake and returns 0. The whitelist path
  discards the same subnet for its price.
\<close>

theorem zero_price_is_staked:
  "get_subnet_by_netuid [mk_subnet 5 (Some 0) (Some 100) (Some 1)] 5
       = Some (mk_subnet 5 (Some 0) (Some 100) (Some 1))
   \<and> snd (run exact_ops (sample_config (Some 5) [] False) zero_price_world) = Inr 0
   \<and> Call_add_stake ''5F'' 5 1
       \<in> set (fst (run exact_ops (sample_config (Some 5) [] False) zero_price_world))
   \<and> select_best_from_whitelist exact_ops [mk_subnet 5 (Some 0) (Some 100) (Some 1)] [5] 1 10
       = (None, Some ''No eligible subnets in whitelist'')"
proof -
  let ?c = "sample_config (Some 5) [] False"
  have conn: "\<not> all_fail zero_price_world (networks_to_try (network ?c))"
    using sample_world_connects [of "Some 5" "[]" False]
    by (simp add: zero_price_world_def all_fail_all_subnets)
  have reach: "reaches_resolution exact_ops ?c zero_price_world"
    using conn
    by (simp add: reaches_resolution_def)
       (simp add: zero_price_world_def sample_world_def sample_config_def)
  have body: "resolve_target exact_ops ?c zero_price_world
      = ([Log_Target_subnet 5,
          Log_Subnet_price 5 ''sn'' 0,
          Log_Liquidity_check OK,
          Log_Executing_stake 1 5,
          Call_add_stake ''5F'' 5 1,
          Log_Success 1 5 ''sn''], Inr 0)"
    by (simp add: resolve_target_def stake_on_def emit_def execute_stake_def
        check_liquidity_def zero_price_world_def sample_world_def sample_config_def
        mk_subnet_def)
  from run_reaches [OF reach] body
  have call: "Call_add_stake ''5F'' 5 1 \<in> set (fst (run exact_ops ?c zero_price_world))"
    by auto
  have "snd (run exact_ops ?c zero_price_world)
      = snd (resolve_target exact_ops ?c zero_price_world)"
    using reach
    by (auto simp: reaches_resolution_def snd_run snd_run_body split: sum.splits)
  with body have code: "snd (run exact_ops ?c zero_price_world) = Inr 0" by simp
  have found: "get_subnet_by_netuid [mk_subnet 5 (Some 0) (Some 100) (Some 1)] 5
       = Some (mk_subnet 5 (Some 0) (Some 100) (Some 1))"
    by (simp add: mk_subnet_def)
  have sibling: "select_best_from_whitelist exact_ops
        [mk_subnet 5 (Some 0) (Some 100) (Some 1)] [5] 1 10
       = (None, Some ''No eligible subnets in whitelist'')"
    by (simp add: select_best_from_whitelist_def select_step_def mk_subnet_def)
  from found code call sibling show ?thesis by simp
qed

end
